theory Spec2Isabelle
  imports Main "HOL-Library.Word"
begin

section \<open>The websocket client of core/websocket/client.go\<close>

text \<open>
  The theory embeds the four methods of \<open>*Client\<close> (\<open>OnOpen\<close>, \<open>ReadPump\<close>,
  \<open>SendMessage\<close>, \<open>Heartbeat\<close>). A method is a function from the receiver's fields
  and the answers of its environment (the gorilla connection, the clock, the ticker, the
  caller's callbacks) to an outcome, the receiver's fields afterwards and the list of
  calls it made on its environment, oldest first.
\<close>

subsection \<open>Go values\<close>

text \<open>
  \<open>time.Duration\<close> is an \<open>int64\<close> count of nanoseconds and \<open>int\<close> is taken at 64 bits;
  both are read with \<open>sint\<close>, and their arithmetic wraps. A \<open>time.Time\<close> is the number
  of nanoseconds since the zero instant \<open>time.Time{}\<close>, without the saturation of the
  library at the ends of its range.
\<close>

type_synonym Duration = "64 word"
type_synonym Time = int

definition ZeroTime :: Time where
  "ZeroTime = 0"

definition Add :: "Time \<Rightarrow> Duration \<Rightarrow> Time" where
  "Add t d = t + sint d"

definition Second :: Duration where
  "Second = 1000000000"

definition Nanosecond :: Duration where
  "Nanosecond = 1"

text \<open>
  The string constants \<open>ErrorsWebsocket...\<close> are declared elsewhere in the package: their
  text is not used by any branch, so each is a symbol here.
\<close>

datatype errors_const =
    ErrorsWebsocketOnOpenFail
  | ErrorsWebsocketUpgradeFail
  | ErrorsWebsocketWriteMgsFail
  | ErrorsWebsocketReadMessageFail
  | ErrorsWebsocketSetWriteDeadlineFail
  | ErrorsWebsocketBeatHeartFail
  | ErrorsWebsocketBeatHeartsMoreThanMaxTimes
  | ErrorsWebsocketStateInvalid

text \<open>
  An \<open>error\<close> is made by \<open>errors.New\<close>, returned by the connection, or raised by the
  runtime. A panic carries a value that either is an \<open>error\<close> (the deferred functions
  log it) or is not (they stay silent).
\<close>

datatype error = errors_New errors_const | ConnError string | RuntimeError string

datatype panic = PanicError error | PanicValue string

definition nil_dereference :: panic where
  "nil_dereference = PanicError (RuntimeError ''invalid memory address or nil pointer dereference'')"

text \<open>How a call ends: it returns, a panic leaves it, or it waits and does not return.\<close>

datatype 'a outcome = Returns 'a | Panics panic | Blocks

definition TextMessage :: int where
  "TextMessage = 1"

definition PingMessage :: int where
  "PingMessage = 9"

definition WebsocketHandshakeSuccess :: string where
  \<open>WebsocketHandshakeSuccess =
     ''{"code":2000,"msg":"ws'' @
     [CHR 0xE8, CHR 0xBF, CHR 0x9E, CHR 0xE6, CHR 0x8E, CHR 0xA5,
      CHR 0xE6, CHR 0x88, CHR 0x90, CHR 0xE5, CHR 0x8A, CHR 0x9F] @
     ''","data":""}''\<close>

definition WebsocketServerPingMsg :: string where
  "WebsocketServerPingMsg = ''Server->Ping->Client''"

subsection \<open>Calls on the environment\<close>

type_synonym HubPtr = nat
type_synonym ConnPtr = nat

datatype event =
    Upgrade "64 word" "64 word"
  | SetWriteDeadline Time
  | WriteMessage int string
  | ReadMessage
  | SetReadDeadline Time
  | SetReadLimit "64 word"
  | SetPongHandler
  | RegisterSend HubPtr
  | LogError errors_const error
  | OnMessage int string
  | OnError error
  | OnClose
  | NewTicker Duration
  | TickerStop

fun is_WriteMessage :: "event \<Rightarrow> bool" where
  "is_WriteMessage (WriteMessage mt m) = True"
| "is_WriteMessage e = False"

fun is_LogError :: "event \<Rightarrow> bool" where
  "is_LogError (LogError tag err) = True"
| "is_LogError e = False"

fun is_transport :: "event \<Rightarrow> bool" where
  "is_transport (SetWriteDeadline t) = True"
| "is_transport (WriteMessage mt m) = True"
| "is_transport e = False"

subsection \<open>The Client struct\<close>

text \<open>
  A buffered channel is its capacity and its content. \<open>Hub\<close> and \<open>Conn\<close> are
  pointers, \<open>None\<close> when nil; \<open>Send\<close> is \<open>None\<close> for a nil channel. The embedded
  \<open>sync.RWMutex\<close> is the flag \<open>RWMutex\<close>, true while the write lock is held.
\<close>

record chan =
  cap :: "64 word"
  buf :: "string list"

record Client =
  Hub :: "HubPtr option"
  Conn :: "ConnPtr option"
  Send :: "chan option"
  PingPeriod :: Duration
  ReadDeadline :: Duration
  WriteDeadline :: Duration
  HeartbeatFailTimes :: "64 word"
  State :: "8 word"
  RWMutex :: bool
  UserParams1 :: string
  UserParams2 :: string

text \<open>The zero value of the struct, \<open>Client{}\<close>.\<close>

definition new_client :: Client where
  "new_client = \<lparr>Hub = None, Conn = None, Send = None, PingPeriod = 0, ReadDeadline = 0,
     WriteDeadline = 0, HeartbeatFailTimes = 0, State = 0, RWMutex = False,
     UserParams1 = [], UserParams2 = []\<rparr>"

subsection \<open>SendMessage\<close>

text \<open>
  The environment of one call: the clock's reading, what \<open>SetWriteDeadline\<close> returns
  and what \<open>WriteMessage\<close> returns. \<open>c.Lock()\<close> waits while the lock is held; the
  deferred \<open>c.Unlock()\<close> runs on every way out, a panic included. A method of a nil
  \<open>*websocket.Conn\<close> panics.
\<close>

record send_env =
  now :: Time
  deadline_err :: "error option"
  write_err :: "error option"

definition SendMessage ::
  "Client \<Rightarrow> int \<Rightarrow> string \<Rightarrow> send_env \<Rightarrow> error option outcome \<times> Client \<times> event list" where
  "SendMessage c messageType message env =
     (if RWMutex c then (Blocks, c, [])
      else
        let c1 = c\<lparr>RWMutex := True\<rparr> in
        (case Conn c1 of
           None \<Rightarrow> (Panics nil_dereference, c1\<lparr>RWMutex := False\<rparr>, [])
         | Some wsConn \<Rightarrow>
             (case deadline_err env of
                Some err \<Rightarrow>
                  (Returns (Some err), c1\<lparr>RWMutex := False\<rparr>,
                   [SetWriteDeadline (Add (now env) (WriteDeadline c1)),
                    LogError ErrorsWebsocketSetWriteDeadlineFail err])
              | None \<Rightarrow>
                  (Returns (write_err env), c1\<lparr>RWMutex := False\<rparr>,
                   [SetWriteDeadline (Add (now env) (WriteDeadline c1)),
                    WriteMessage messageType message]))))"

subsection \<open>Heartbeat\<close>

text \<open>
  Modelled from the spec: the struct behind \<open>config.Setting\<close> (package
  core/websocket/config is not among the sources). Section 6 of the specification lists
  its fields: buffer size, ping interval, read deadline and write deadline in seconds,
  the maximum of heartbeat failures, the maximum frame size. The code compares
  \<open>HeartbeatFailMaxTimes\<close> with an \<open>int\<close>, passes \<open>BufferSize\<close> where an
  \<open>int\<close> is expected and \<open>MaxMessageSize\<close> where an \<open>int64\<close> is, and converts the
  three durations with \<open>time.Duration(...)\<close>.
\<close>

record Setting =
  BufferSize :: "64 word"
  Setting_PingPeriod :: "64 word"
  Setting_ReadDeadline :: "64 word"
  Setting_WriteDeadline :: "64 word"
  HeartbeatFailMaxTimes :: "64 word"
  MaxMessageSize :: "64 word"

text \<open>
  The deferred functions of \<open>OnOpen\<close>, \<open>ReadPump\<close> and \<open>Heartbeat\<close> recover a panic
  and log it when its value is an \<open>error\<close>.
\<close>

fun recover_log :: "errors_const \<Rightarrow> panic \<Rightarrow> event list" where
  "recover_log tag (PanicError err) = [LogError tag err]"
| "recover_log tag (PanicValue v) = []"

text \<open>
  The pong handler installed by \<open>Heartbeat\<close>, called with the clock's reading. The
  result of \<open>SetReadDeadline\<close> is dropped.
\<close>

definition PongHandler :: "Client \<Rightarrow> Time \<Rightarrow> error option outcome \<times> event list" where
  "PongHandler c t =
     (case Conn c of
        None \<Rightarrow> (Panics nil_dereference, [])
      | Some wsConn \<Rightarrow>
          (if sint Nanosecond < sint (ReadDeadline c)
           then (Returns None, [SetReadDeadline (Add t (ReadDeadline c))])
           else (Returns None, [SetReadDeadline ZeroTime])))"

text \<open>
  One receive from \<open>ticker.C\<close> and the body of the \<open>select\<close> case: \<open>Next\<close> goes
  round the loop again, \<open>Leave\<close> is the \<open>return\<close>.
\<close>

datatype step = Next | Leave

definition Heartbeat_tick ::
  "Setting \<Rightarrow> Client \<Rightarrow> send_env \<Rightarrow> step outcome \<times> Client \<times> event list" where
  "Heartbeat_tick cfg c env =
     (if State c = 1 then
        (case SendMessage c PingMessage WebsocketServerPingMsg env of
           (Returns (Some err), c1, evs) \<Rightarrow>
             (let c2 = c1\<lparr>HeartbeatFailTimes := HeartbeatFailTimes c1 + 1\<rparr> in
              if sint (HeartbeatFailMaxTimes cfg) < sint (HeartbeatFailTimes c2)
              then (Returns Leave, c2\<lparr>State := 0\<rparr>,
                    evs @ [LogError ErrorsWebsocketBeatHeartsMoreThanMaxTimes err])
              else (Returns Next, c2, evs))
         | (Returns None, c1, evs) \<Rightarrow>
             (if 0 < sint (HeartbeatFailTimes c1)
              then (Returns Next, c1\<lparr>HeartbeatFailTimes := HeartbeatFailTimes c1 - 1\<rparr>, evs)
              else (Returns Next, c1, evs))
         | (Panics p, c1, evs) \<Rightarrow> (Panics p, c1, evs)
         | (Blocks, c1, evs) \<Rightarrow> (Blocks, c1, evs))
      else (Returns Leave, c, []))"

text \<open>
  The loop over the ticks that arrive. \<open>Running\<close>: every tick was served and the loop
  waits for the next one; \<open>Finished\<close>: the loop was left, by \<open>return\<close>, by a panic,
  or it waits for the lock.
\<close>

datatype 'a progress = Running | Finished 'a

fun Heartbeat_loop ::
  "Setting \<Rightarrow> Client \<Rightarrow> send_env list \<Rightarrow> unit outcome progress \<times> Client \<times> event list" where
  "Heartbeat_loop cfg c [] = (Running, c, [])"
| "Heartbeat_loop cfg c (env # envs) =
     (case Heartbeat_tick cfg c env of
        (Returns Next, c', evs) \<Rightarrow>
          (case Heartbeat_loop cfg c' envs of (st, c'', evs') \<Rightarrow> (st, c'', evs @ evs'))
      | (Returns Leave, c', evs) \<Rightarrow> (Finished (Returns ()), c', evs)
      | (Panics p, c', evs) \<Rightarrow> (Finished (Panics p), c', evs)
      | (Blocks, c', evs) \<Rightarrow> (Finished Blocks, c', evs))"

text \<open>
  The whole method. \<open>time.NewTicker\<close> panics on an interval that is not positive, before
  the deferred function is installed. \<open>t0\<close> is the clock's reading for the first read
  deadline.
\<close>

definition Heartbeat ::
  "Setting \<Rightarrow> Client \<Rightarrow> Time \<Rightarrow> send_env list \<Rightarrow> unit outcome progress \<times> Client \<times> event list" where
  "Heartbeat cfg c t0 ticks =
     (if sint (PingPeriod c) \<le> 0
      then (Finished (Panics (PanicValue ''non-positive interval for NewTicker'')), c, [])
      else
        (case Conn c of
           None \<Rightarrow>
             (Finished (Returns ()), c,
              NewTicker (PingPeriod c) # recover_log ErrorsWebsocketBeatHeartFail nil_dereference @ [TickerStop])
         | Some wsConn \<Rightarrow>
             (let pre = [NewTicker (PingPeriod c),
                         SetReadDeadline (if ReadDeadline c = 0 then ZeroTime else Add t0 (ReadDeadline c)),
                         SetPongHandler]
              in case Heartbeat_loop cfg c ticks of
                   (Running, c', evs) \<Rightarrow> (Running, c', pre @ evs)
                 | (Finished (Returns u), c', evs) \<Rightarrow> (Finished (Returns ()), c', pre @ evs @ [TickerStop])
                 | (Finished (Panics p), c', evs) \<Rightarrow>
                     (Finished (Returns ()), c',
                      pre @ evs @ recover_log ErrorsWebsocketBeatHeartFail p @ [TickerStop])
                 | (Finished Blocks, c', evs) \<Rightarrow> (Finished Blocks, c', pre @ evs))))"

text \<open>
  What the environment answers to one ping: the send fails when \<open>SetWriteDeadline\<close> or
  \<open>WriteMessage\<close> returns an error, and succeeds when neither does.
\<close>

definition send_fails :: "send_env \<Rightarrow> bool" where
  "send_fails env = (deadline_err env \<noteq> None \<or> write_err env \<noteq> None)"




subsection \<open>ReadPump\<close>

text \<open>
  What \<open>c.Conn.ReadMessage()\<close> answers, and the three callbacks. A callback works on
  the state of its caller (the type \<open>'s\<close>) and either returns or panics; it does not
  assign to the Client.
\<close>

datatype read_result = ReadOk int string | ReadErr error

record 's callbacks =
  callbackOnMessage :: "int \<Rightarrow> string \<Rightarrow> 's \<Rightarrow> panic option \<times> 's"
  callbackOnError :: "error \<Rightarrow> 's \<Rightarrow> panic option \<times> 's"
  callbackOnClose :: "'s \<Rightarrow> panic option \<times> 's"

text \<open>
  The \<open>for\<close> loop. The body assigns no field of \<open>c\<close>, but the Client is shared: the
  heartbeat may assign \<open>State\<close> while the loop waits in \<open>ReadMessage\<close> or runs a
  callback. So \<open>c\<close> is the Client as the test \<open>c.State == 1\<close> of this round finds it,
  and every answer of \<open>ReadMessage\<close> comes with the Client as the test of the next
  round finds it. With no answer left the loop waits in \<open>ReadMessage\<close>: \<open>Running\<close>.
\<close>

fun ReadPump_loop ::
  "Client \<Rightarrow> 's callbacks \<Rightarrow> (read_result \<times> Client) list \<Rightarrow> 's \<Rightarrow>
   unit outcome progress \<times> 's \<times> event list" where
  "ReadPump_loop c cb rs s =
     (if State c = 1 then
        (case Conn c of
           None \<Rightarrow> (Finished (Panics nil_dereference), s, [])
         | Some wsConn \<Rightarrow>
             (case rs of
                [] \<Rightarrow> (Running, s, [])
              | (ReadOk mt bReceivedData, c') # rs' \<Rightarrow>
                  (case callbackOnMessage cb mt bReceivedData s of
                     (None, s') \<Rightarrow>
                       (case ReadPump_loop c' cb rs' s' of
                          (st, s'', evs) \<Rightarrow> (st, s'', ReadMessage # OnMessage mt bReceivedData # evs))
                   | (Some p, s') \<Rightarrow>
                       (Finished (Panics p), s', [ReadMessage, OnMessage mt bReceivedData]))
              | (ReadErr err, c') # rs' \<Rightarrow>
                  (case callbackOnError cb err s of
                     (None, s') \<Rightarrow> (Finished (Returns ()), s', [ReadMessage, OnError err])
                   | (Some p, s') \<Rightarrow> (Finished (Panics p), s', [ReadMessage, OnError err]))))
      else
        (case callbackOnError cb (errors_New ErrorsWebsocketStateInvalid) s of
           (None, s') \<Rightarrow>
             (Finished (Returns ()), s', [OnError (errors_New ErrorsWebsocketStateInvalid)])
         | (Some p, s') \<Rightarrow>
             (Finished (Panics p), s', [OnError (errors_New ErrorsWebsocketStateInvalid)])))"

declare ReadPump_loop.simps [simp del]

text \<open>
  The method: the loop, then the deferred function, which recovers a panic of the loop,
  logs it when it is an \<open>error\<close>, and calls \<open>callbackOnClose\<close>. A panic of
  \<open>callbackOnClose\<close> itself is raised after \<open>recover\<close> and leaves the method.
\<close>

definition ReadPump ::
  "Client \<Rightarrow> 's callbacks \<Rightarrow> (read_result \<times> Client) list \<Rightarrow> 's \<Rightarrow>
   unit outcome progress \<times> 's \<times> event list" where
  "ReadPump c cb rs s =
     (case ReadPump_loop c cb rs s of
        (Running, s', evs) \<Rightarrow> (Running, s', evs)
      | (Finished r, s', evs) \<Rightarrow>
          (let logged = (case r of
                           Panics p \<Rightarrow> recover_log ErrorsWebsocketReadMessageFail p
                         | Returns u \<Rightarrow> []
                         | Blocks \<Rightarrow> [])
           in case callbackOnClose cb s' of
                (None, s'') \<Rightarrow> (Finished (Returns ()), s'', evs @ logged @ [OnClose])
              | (Some p, s'') \<Rightarrow> (Finished (Panics p), s'', evs @ logged @ [OnClose])))"

text \<open>The calls the loop itself makes.\<close>

fun is_loop_event :: "event \<Rightarrow> bool" where
  "is_loop_event ReadMessage = True"
| "is_loop_event (OnMessage mt d) = True"
| "is_loop_event (OnError err) = True"
| "is_loop_event e = False"

text \<open>
  A Client on which a round gets as far as the read: the test of \<open>State\<close> passes and
  the connection is not nil. An answer after which the loop is left whatever the
  callback does: a read error, or a Client that the next test does not find so.
\<close>

definition active :: "Client \<Rightarrow> bool" where
  "active c = (State c = 1 \<and> Conn c \<noteq> None)"

fun ends_loop :: "read_result \<times> Client \<Rightarrow> bool" where
  "ends_loop (ReadErr err, c') = True"
| "ends_loop (ReadOk mt d, c') = (\<not> active c')"





subsection \<open>OnOpen\<close>

text \<open>
  The environment of one call: what \<open>upGrader.Upgrade\<close> returns (an error, or the
  new connection), whether the runtime can allocate the channel, the environment of the
  handshake's \<open>SendMessage\<close>, and whether the Hub takes the value sent on
  \<open>c.Hub.Register\<close> (the send waits until it does). The parameter \<open>WebsocketHub\<close>
  is the variable \<open>global.WebsocketHub\<close>: \<open>None\<close> when it does not hold a
  \<open>*Hub\<close>, so that the type assertion fails and \<open>c.Hub\<close> stays as it was, and
  \<open>Some p\<close> when it holds the pointer \<open>p\<close>, which may be nil. \<open>make\<close> panics on
  a negative size, and a send through a nil \<open>c.Hub\<close> panics. \<open>OnOpen_body\<close> is
  the body of the method; \<open>OnOpen\<close> adds the deferred function, after which the
  results are their zero values \<open>(nil, false)\<close>.
\<close>

record open_env =
  upgrade_res :: "error + ConnPtr"
  alloc_ok :: bool
  handshake :: send_env
  register_taken :: bool

definition OnOpen_body ::
  "Setting \<Rightarrow> HubPtr option option \<Rightarrow> Client \<Rightarrow> open_env \<Rightarrow>
   (Client option \<times> bool) outcome \<times> Client \<times> event list" where
  "OnOpen_body cfg WebsocketHub c env =
     (case upgrade_res env of
        Inl err \<Rightarrow>
          (Returns (None, False), c,
           [Upgrade (BufferSize cfg) (BufferSize cfg), LogError ErrorsWebsocketUpgradeFail err])
      | Inr wsConn \<Rightarrow>
          (let c1 = (case WebsocketHub of Some wsHub \<Rightarrow> c\<lparr>Hub := wsHub\<rparr> | None \<Rightarrow> c);
               c2 = c1\<lparr>Conn := Some wsConn\<rparr>
           in if sint (BufferSize cfg) < 0 \<or> \<not> alloc_ok env
              then (Panics (PanicError (RuntimeError ''makechan: size out of range'')), c2,
                    [Upgrade (BufferSize cfg) (BufferSize cfg)])
              else
                (let c3 = c2\<lparr>Send := Some \<lparr>cap = BufferSize cfg, buf = []\<rparr>\<rparr>;
                     c4 = c3\<lparr>PingPeriod := Second * Setting_PingPeriod cfg\<rparr>;
                     c5 = c4\<lparr>ReadDeadline := Second * Setting_ReadDeadline cfg\<rparr>;
                     c6 = c5\<lparr>WriteDeadline := Second * Setting_WriteDeadline cfg\<rparr>
                 in case SendMessage c6 TextMessage WebsocketHandshakeSuccess (handshake env) of
                      (Blocks, c7, evs) \<Rightarrow>
                        (Blocks, c7, Upgrade (BufferSize cfg) (BufferSize cfg) # evs)
                    | (Panics p, c7, evs) \<Rightarrow>
                        (Panics p, c7, Upgrade (BufferSize cfg) (BufferSize cfg) # evs)
                    | (Returns r, c7, evs) \<Rightarrow>
                        (let evs1 = Upgrade (BufferSize cfg) (BufferSize cfg) # evs @
                               (case r of
                                  Some err \<Rightarrow> [LogError ErrorsWebsocketWriteMgsFail err]
                                | None \<Rightarrow> []) @
                               [SetReadLimit (MaxMessageSize cfg)]
                         in case Hub c7 of
                              None \<Rightarrow> (Panics nil_dereference, c7, evs1)
                            | Some h \<Rightarrow>
                                if register_taken env
                                then (Returns (Some (c7\<lparr>State := 1\<rparr>), True), c7\<lparr>State := 1\<rparr>,
                                      evs1 @ [RegisterSend h])
                                else (Blocks, c7, evs1)))))"

definition OnOpen ::
  "Setting \<Rightarrow> HubPtr option option \<Rightarrow> Client \<Rightarrow> open_env \<Rightarrow>
   (Client option \<times> bool) outcome \<times> Client \<times> event list" where
  "OnOpen cfg WebsocketHub c env =
     (case OnOpen_body cfg WebsocketHub c env of
        (Panics p, c', evs) \<Rightarrow>
          (Returns (None, False), c', evs @ recover_log ErrorsWebsocketOnOpenFail p)
      | (Returns r, c', evs) \<Rightarrow> (Returns r, c', evs)
      | (Blocks, c', evs) \<Rightarrow> (Blocks, c', evs))"

subsection \<open>The steps of one Client's loops\<close>

text \<open>
  The methods run in goroutines of their own and share the Client. A configuration is
  the Client, the state of the callbacks' caller, and the Client as the test of the
  pending \<open>ReadMessage\<close> found it (\<open>None\<close> when the read loop does not wait in a
  read). A step is
  \<^item> \<open>StartRead\<close>: the call of \<open>ReadPump\<close>, as far as the first \<open>ReadMessage\<close>;
  \<^item> \<open>ReadAnswer r\<close>: the pending \<open>ReadMessage\<close> answers \<open>r\<close>; the loop calls the
    callback and tests \<open>State\<close> again, on the Client as it is now, whatever it was
    when the read began;
  \<^item> \<open>Tick\<close>: one tick of the heartbeat loop;
  \<^item> \<open>Sending\<close>: one call of \<open>SendMessage\<close> by any caller;
  \<^item> \<open>Pong\<close>: one call of the pong handler.
  A run is any sequence of steps, each on the configuration the step before left. A step
  with nothing to act on (an answer with no read pending, a second \<open>ReadPump\<close>)
  changes nothing; a step that waits for the lock or panics leaves the Client as
  \<open>SendMessage\<close> left it. Ticks may follow the return of the heartbeat loop: the runs
  of the code are among these. \<open>client_run\<close> lists the configurations a run goes
  through and \<open>State_history\<close> the values of \<open>State\<close> in them; \<open>transitions P\<close>
  counts the neighbours in a list that \<open>P\<close> relates.
\<close>

datatype action =
    StartRead
  | ReadAnswer read_result
  | Tick send_env
  | Sending int string send_env
  | Pong Time

fun waits_in_read :: "unit outcome progress \<Rightarrow> Client \<Rightarrow> Client option" where
  "waits_in_read Running c = Some c"
| "waits_in_read (Finished r) c = None"

fun client_step ::
  "Setting \<Rightarrow> 's callbacks \<Rightarrow> action \<Rightarrow> Client \<times> 's \<times> Client option \<Rightarrow>
   Client \<times> 's \<times> Client option" where
  "client_step cfg cb StartRead (c, s, None) =
     (case ReadPump c cb [] s of (st, s', evs) \<Rightarrow> (c, s', waits_in_read st c))"
| "client_step cfg cb StartRead (c, s, Some c0) = (c, s, Some c0)"
| "client_step cfg cb (ReadAnswer r) (c, s, Some c0) =
     (case ReadPump c0 cb [(r, c)] s of (st, s', evs) \<Rightarrow> (c, s', waits_in_read st c))"
| "client_step cfg cb (ReadAnswer r) (c, s, None) = (c, s, None)"
| "client_step cfg cb (Tick env) (c, s, rd) = (fst (snd (Heartbeat_tick cfg c env)), s, rd)"
| "client_step cfg cb (Sending mt msg env) (c, s, rd) =
     (fst (snd (SendMessage c mt msg env)), s, rd)"
| "client_step cfg cb (Pong t) (c, s, rd) = (c, s, rd)"

fun client_run ::
  "Setting \<Rightarrow> 's callbacks \<Rightarrow> action list \<Rightarrow> Client \<times> 's \<times> Client option \<Rightarrow>
   (Client \<times> 's \<times> Client option) list" where
  "client_run cfg cb [] w = [w]"
| "client_run cfg cb (a # as) w = w # client_run cfg cb as (client_step cfg cb a w)"

definition State_history ::
  "Setting \<Rightarrow> 's callbacks \<Rightarrow> action list \<Rightarrow> Client \<times> 's \<times> Client option \<Rightarrow> 8 word list" where
  "State_history cfg cb as w = map (\<lambda>w. State (fst w)) (client_run cfg cb as w)"

fun transitions :: "('a \<Rightarrow> 'a \<Rightarrow> bool) \<Rightarrow> 'a list \<Rightarrow> nat" where
  "transitions P (x # y # zs) = (if P x y then 1 else 0) + transitions P (y # zs)"
| "transitions P [x] = 0"
| "transitions P [] = 0"

subsection \<open>The Hub\<close>

text \<open>
  Modelled from the spec: the struct \<open>Hub\<close> (core/websocket/hub.go is not among the
  sources; the code of the Client only sends on its channel \<open>Register\<close>). Section 3 of
  the specification gives it a set \<open>clients\<close> of Clients, unique by identity, and the
  queues \<open>registerQueue\<close> and \<open>unregisterQueue\<close> that serialise the requests. A
  Client is named by a number.
\<close>

record Hub =
  clients :: "nat set"
  registerQueue :: "nat list"
  unregisterQueue :: "nat list"

text \<open>
  Modelled from the spec: the Hub's \<open>Register\<close>, which is missing with the Hub. Section
  4.5: an idempotent add to \<open>clients\<close>.
\<close>

definition Register :: "nat \<Rightarrow> Hub \<Rightarrow> Hub" where
  "Register x h = h\<lparr>clients := insert x (clients h)\<rparr>"

text \<open>
  Modelled from the spec: the Hub's \<open>Unregister\<close>, which is missing with the Hub.
  Section 4.5: an idempotent remove; removing an absent Client is a no-op.
\<close>

definition Unregister :: "nat \<Rightarrow> Hub \<Rightarrow> Hub" where
  "Unregister x h = h\<lparr>clients := clients h - {x}\<rparr>"

text \<open>
  Modelled from the spec: the Hub's processing loop, which is missing with the Hub, and
  the life of one Client, named \<open>me\<close>, with it, after sections 2 and 4.5 of the
  specification (the Client registers itself, the Hub holds it, the loops run, the
  Client is unregistered). \<open>OnOpen\<close> puts the Client in \<open>registerQueue\<close> when it
  sends on \<open>Register\<close>; the Hub takes the head of a queue and adds or removes it;
  somebody asks for the removal (no code of the Client does). \<open>hub_done\<close> records the
  requests about \<open>me\<close> that the Hub has completed, oldest first: the Client has
  completed registration and not yet completed unregistration when the last of them
  is a registration (\<open>registration_standing\<close>).
\<close>

datatype hub_op = Registered | Unregistered

record 's system =
  the_client :: Client
  app :: 's
  pending :: "Client option"
  hub :: Hub
  hub_done :: "hub_op list"

datatype sys_action =
    Open open_env
  | Act action
  | HubTakesRegister
  | SendUnregister
  | HubTakesUnregister

fun is_RegisterSend :: "event \<Rightarrow> bool" where
  "is_RegisterSend (RegisterSend h) = True"
| "is_RegisterSend e = False"

fun sys_step ::
  "Setting \<Rightarrow> HubPtr option option \<Rightarrow> 's callbacks \<Rightarrow> nat \<Rightarrow> sys_action \<Rightarrow> 's system \<Rightarrow> 's system" where
  "sys_step cfg gh cb me (Open env) w =
     (case OnOpen cfg gh (the_client w) env of
        (r, c', evs) \<Rightarrow>
          w\<lparr>the_client := c',
            hub := (if list_ex is_RegisterSend evs
                    then (hub w)\<lparr>registerQueue := registerQueue (hub w) @ [me]\<rparr>
                    else hub w)\<rparr>)"
| "sys_step cfg gh cb me (Act a) w =
     (case client_step cfg cb a (the_client w, app w, pending w) of
        (c', s', rd') \<Rightarrow> w\<lparr>the_client := c', app := s', pending := rd'\<rparr>)"
| "sys_step cfg gh cb me HubTakesRegister w =
     (case registerQueue (hub w) of
        [] \<Rightarrow> w
      | x # q \<Rightarrow>
          w\<lparr>hub := Register x ((hub w)\<lparr>registerQueue := q\<rparr>),
            hub_done := hub_done w @ (if x = me then [Registered] else [])\<rparr>)"
| "sys_step cfg gh cb me SendUnregister w =
     w\<lparr>hub := (hub w)\<lparr>unregisterQueue := unregisterQueue (hub w) @ [me]\<rparr>\<rparr>"
| "sys_step cfg gh cb me HubTakesUnregister w =
     (case unregisterQueue (hub w) of
        [] \<Rightarrow> w
      | x # q \<Rightarrow>
          w\<lparr>hub := Unregister x ((hub w)\<lparr>unregisterQueue := q\<rparr>),
            hub_done := hub_done w @ (if x = me then [Unregistered] else [])\<rparr>)"

fun sys_run ::
  "Setting \<Rightarrow> HubPtr option option \<Rightarrow> 's callbacks \<Rightarrow> nat \<Rightarrow> sys_action list \<Rightarrow> 's system \<Rightarrow> 's system" where
  "sys_run cfg gh cb me [] w = w"
| "sys_run cfg gh cb me (a # as) w = sys_run cfg gh cb me as (sys_step cfg gh cb me a w)"

definition sys_init :: "'s \<Rightarrow> 's system" where
  "sys_init s = \<lparr>the_client = new_client, app = s, pending = None,
     hub = \<lparr>clients = {}, registerQueue = [], unregisterQueue = []\<rparr>, hub_done = []\<rparr>"

definition registration_standing :: "'s system \<Rightarrow> bool" where
  "registration_standing w = (hub_done w \<noteq> [] \<and> last (hub_done w) = Registered)"

definition is_member :: "nat \<Rightarrow> 's system \<Rightarrow> bool" where
  "is_member me w = (me \<in> clients (hub w))"

subsection \<open>Concrete inputs\<close>

definition client0 :: Client where
  "client0 = \<lparr>Hub = Some 7, Conn = Some 3, Send = Some \<lparr>cap = 4, buf = []\<rparr>,
     PingPeriod = 2 * Second, ReadDeadline = 5 * Second, WriteDeadline = 3 * Second,
     HeartbeatFailTimes = 0, State = 1, RWMutex = False,
     UserParams1 = ''u1'', UserParams2 = ''u2''\<rparr>"

definition env_ok :: send_env where
  "env_ok = \<lparr>now = 100, deadline_err = None, write_err = None\<rparr>"

definition env_write_fails :: send_env where
  "env_write_fails = \<lparr>now = 100, deadline_err = None, write_err = Some (ConnError ''broken pipe'')\<rparr>"

definition env_deadline_fails :: send_env where
  "env_deadline_fails = \<lparr>now = 100, deadline_err = Some (ConnError ''closed''), write_err = None\<rparr>"

definition cfg0 :: Setting where
  "cfg0 = \<lparr>BufferSize = 4, Setting_PingPeriod = 2, Setting_ReadDeadline = 5,
     Setting_WriteDeadline = 3, HeartbeatFailMaxTimes = 2, MaxMessageSize = 65535\<rparr>"

definition cb_quiet :: "nat callbacks" where
  "cb_quiet = \<lparr>callbackOnMessage = (\<lambda>mt d n. (None, Suc n)),
     callbackOnError = (\<lambda>e n. (None, Suc n)),
     callbackOnClose = (\<lambda>n. (None, Suc n))\<rparr>"

definition cb_record :: "event list callbacks" where
  "cb_record = \<lparr>callbackOnMessage = (\<lambda>mt d s. (None, s @ [OnMessage mt d])),
     callbackOnError = (\<lambda>e s. (None, s @ [OnError e])),
     callbackOnClose = (\<lambda>s. (None, s @ [OnClose]))\<rparr>"

definition cb_boom :: "nat callbacks" where
  "cb_boom = \<lparr>callbackOnMessage =
       (\<lambda>mt d n. (if d = ''boom'' then Some (PanicError (RuntimeError ''boom'')) else None, Suc n)),
     callbackOnError = (\<lambda>e n. (None, Suc n)),
     callbackOnClose = (\<lambda>n. (None, Suc n))\<rparr>"

definition open_ok :: open_env where
  "open_ok = \<lparr>upgrade_res = Inr 3, alloc_ok = True, handshake = env_ok, register_taken = True\<rparr>"

definition open_write_fails :: open_env where
  "open_write_fails = \<lparr>upgrade_res = Inr 3, alloc_ok = True, handshake = env_write_fails,
     register_taken = True\<rparr>"

definition open_deadline_fails :: open_env where
  "open_deadline_fails = \<lparr>upgrade_res = Inr 3, alloc_ok = True, handshake = env_deadline_fails,
     register_taken = True\<rparr>"

definition opened :: Client where
  "opened = \<lparr>Hub = Some 7, Conn = Some 3, Send = Some \<lparr>cap = 4, buf = []\<rparr>,
     PingPeriod = 2000000000, ReadDeadline = 5000000000, WriteDeadline = 3000000000,
     HeartbeatFailTimes = 0, State = 1, RWMutex = False, UserParams1 = [], UserParams2 = []\<rparr>"

definition closed_member_run :: "sys_action list" where
  "closed_member_run =
     [Open open_ok, HubTakesRegister, Act (Tick env_write_fails), Act (Tick env_write_fails),
      Act (Tick env_write_fails)]"

section \<open>Theorems\<close>

subsection \<open>SendMessage: the result and the calls\<close>

text \<open>
  C5. A call of SendMessage that gets the lock, on a connection that is not nil, first
  sets the write deadline to the clock's reading plus WriteDeadline. If that fails, it
  returns the same error and makes no WriteMessage call. Otherwise it makes one
  WriteMessage call with the message type and the message, and returns what that call
  returned: the error on failure, nil on success.
\<close>

theorem SendMessage_result:
  assumes "\<not> RWMutex c" and "Conn c \<noteq> None"
  shows "\<exists>r c' evs. SendMessage c mt msg env = (Returns r, c', evs) \<and>
           hd evs = SetWriteDeadline (Add (now env) (WriteDeadline c)) \<and>
           (case deadline_err env of
              Some err \<Rightarrow> r = Some err \<and> filter is_WriteMessage evs = []
            | None \<Rightarrow>
                evs = [SetWriteDeadline (Add (now env) (WriteDeadline c)), WriteMessage mt msg] \<and>
                r = write_err env)"
  using assms by (auto simp: SendMessage_def Let_def split: option.splits)

theorem SendMessage_result_witness:
  "SendMessage client0 PingMessage WebsocketServerPingMsg env_deadline_fails =
     (Returns (Some (ConnError ''closed'')), client0,
      [SetWriteDeadline 3000000100, LogError ErrorsWebsocketSetWriteDeadlineFail (ConnError ''closed'')]) \<and>
   SendMessage client0 PingMessage WebsocketServerPingMsg env_write_fails =
     (Returns (Some (ConnError ''broken pipe'')), client0,
      [SetWriteDeadline 3000000100, WriteMessage 9 ''Server->Ping->Client'']) \<and>
   SendMessage client0 PingMessage WebsocketServerPingMsg env_ok =
     (Returns None, client0,
      [SetWriteDeadline 3000000100, WriteMessage 9 ''Server->Ping->Client''])"
proof -
  have free: "\<not> RWMutex client0" and conn: "Conn client0 \<noteq> None"
    by (simp_all add: client0_def)
  note res = SendMessage_result [OF free conn]
  show ?thesis
    using res [of PingMessage WebsocketServerPingMsg env_deadline_fails]
      res [of PingMessage WebsocketServerPingMsg env_write_fails]
      res [of PingMessage WebsocketServerPingMsg env_ok]
    by (simp add: SendMessage_def client0_def env_ok_def env_write_fails_def
        env_deadline_fails_def Add_def Second_def PingMessage_def WebsocketServerPingMsg_def)
qed

subsection \<open>SendMessage: the frame\<close>

text \<open>
  C10. Every call of SendMessage, whatever its outcome, leaves the Client as it was:
  State, HeartbeatFailTimes, PingPeriod, ReadDeadline, WriteDeadline, the Send channel,
  the Hub pointer, the Conn pointer and the user parameters are unchanged, and the lock is
  released again. What it does outside the Client is to set the write deadline and to
  write at most one frame; the one other call is the log entry of a failed deadline.
\<close>

theorem SendMessage_frame:
  "fst (snd (SendMessage c mt msg env)) = c \<and>
   list_all (\<lambda>e. is_transport e \<or> is_LogError e) (snd (snd (SendMessage c mt msg env))) \<and>
   filter is_transport (snd (snd (SendMessage c mt msg env))) \<in>
     {[], [SetWriteDeadline (Add (now env) (WriteDeadline c))],
      [SetWriteDeadline (Add (now env) (WriteDeadline c)), WriteMessage mt msg]}"
  by (cases c) (simp add: SendMessage_def Let_def split: option.splits)

theorem SendMessage_frame_witness:
  "fst (snd (SendMessage client0 TextMessage ''hello'' env_write_fails)) = client0 \<and>
   filter is_transport (snd (snd (SendMessage client0 TextMessage ''hello'' env_write_fails))) =
     [SetWriteDeadline 3000000100, WriteMessage 1 ''hello'']"
  using SendMessage_frame [of client0 TextMessage "''hello''" env_write_fails]
  by (simp add: SendMessage_def client0_def env_write_fails_def Add_def Second_def TextMessage_def)

subsection \<open>The pong handler\<close>

text \<open>
  The handler on the read timeouts that \<open>OnOpen\<close> makes of a configured number of
  seconds that is not negative: it sets the read deadline to the clock's reading plus
  ReadDeadline when ReadDeadline is not 0, and disables it (the zero time) when it is 0.
\<close>

lemma PongHandler_whole_seconds:
  assumes conn: "Conn c \<noteq> None"
    and secs: "ReadDeadline c = Second * n"
    and lo: "0 \<le> sint n" and hi: "1000000000 * sint n < 2 ^ 63"
  shows "PongHandler c t =
           (Returns None,
            [SetReadDeadline (if ReadDeadline c = 0 then ZeroTime else Add t (ReadDeadline c))])"
proof -
  have "signed_take_bit 63 (1000000000 * sint n) = 1000000000 * sint n"
    using lo hi by (intro signed_take_bit_int_eq_self) auto
  then have val: "sint (ReadDeadline c) = 1000000000 * sint n"
    by (simp add: secs Second_def sint_word_ariths)
  show ?thesis
  proof (cases "n = 0")
    case True
    then show ?thesis
      using conn by (auto simp: PongHandler_def secs Nanosecond_def)
  next
    case False
    then have "sint n \<noteq> 0"
      by (simp add: signed_eq_0_iff)
    then have "1 < sint (ReadDeadline c)"
      using lo val by simp
    moreover from this have "ReadDeadline c \<noteq> 0"
      by auto
    ultimately show ?thesis
      using conn by (auto simp: PongHandler_def Nanosecond_def)
  qed
qed

text \<open>
  C9. The handler of a Client whose ReadDeadline is minus one second (a configured
  -1), which is not zero, called when the clock reads 5 seconds: it returns nil and
  disables the read deadline; it does not set it to the clock's reading plus
  ReadDeadline, 4 seconds. The first deadline that Heartbeat itself sets for the same
  Client, with the test ReadDeadline == 0, is the clock's reading plus ReadDeadline.
\<close>

theorem PongHandler_negative_timeout:
  "ReadDeadline (client0\<lparr>ReadDeadline := - Second\<rparr>) \<noteq> 0 \<and>
   PongHandler (client0\<lparr>ReadDeadline := - Second\<rparr>) 5000000000 =
     (Returns None, [SetReadDeadline ZeroTime]) \<and>
   Add 5000000000 (ReadDeadline (client0\<lparr>ReadDeadline := - Second\<rparr>)) = 4000000000 \<and>
   ZeroTime \<noteq> 4000000000 \<and>
   Heartbeat cfg0 (client0\<lparr>ReadDeadline := - Second\<rparr>) 5000000000 [] =
     (Running, client0\<lparr>ReadDeadline := - Second\<rparr>,
      [NewTicker 2000000000, SetReadDeadline 4000000000, SetPongHandler])"
  by (simp add: PongHandler_def Heartbeat_def client0_def Second_def Nanosecond_def
      ZeroTime_def Add_def)

subsection \<open>The heartbeat loop\<close>



lemma SendMessage_cases:
  "SendMessage c mt msg env =
     (if RWMutex c then (Blocks, c, [])
      else if Conn c = None then (Panics nil_dereference, c, [])
      else (case deadline_err env of
              Some err \<Rightarrow>
                (Returns (Some err), c,
                 [SetWriteDeadline (Add (now env) (WriteDeadline c)),
                  LogError ErrorsWebsocketSetWriteDeadlineFail err])
            | None \<Rightarrow>
                (Returns (write_err env), c,
                 [SetWriteDeadline (Add (now env) (WriteDeadline c)), WriteMessage mt msg])))"
  by (cases c) (simp add: SendMessage_def Let_def split: option.splits)












subsection \<open>The read loop\<close>

lemma ReadPump_loop_closed:
  "State c \<noteq> 1 \<Longrightarrow>
   ReadPump_loop c cb rs s =
     (case callbackOnError cb (errors_New ErrorsWebsocketStateInvalid) s of
        (None, s') \<Rightarrow>
          (Finished (Returns ()), s', [OnError (errors_New ErrorsWebsocketStateInvalid)])
      | (Some p, s') \<Rightarrow>
          (Finished (Panics p), s', [OnError (errors_New ErrorsWebsocketStateInvalid)]))"
  by (subst ReadPump_loop.simps) simp

lemma ReadPump_loop_nil_conn:
  "State c = 1 \<Longrightarrow> Conn c = None \<Longrightarrow>
   ReadPump_loop c cb rs s = (Finished (Panics nil_dereference), s, [])"
  by (subst ReadPump_loop.simps) simp

lemma ReadPump_loop_Nil:
  "State c = 1 \<Longrightarrow> Conn c \<noteq> None \<Longrightarrow> ReadPump_loop c cb [] s = (Running, s, [])"
  by (subst ReadPump_loop.simps) auto

lemma ReadPump_loop_Ok:
  "State c = 1 \<Longrightarrow> Conn c \<noteq> None \<Longrightarrow>
   ReadPump_loop c cb ((ReadOk mt d, c') # rs) s =
     (case callbackOnMessage cb mt d s of
        (None, s') \<Rightarrow>
          (case ReadPump_loop c' cb rs s' of
             (st, s'', evs) \<Rightarrow> (st, s'', ReadMessage # OnMessage mt d # evs))
      | (Some p, s') \<Rightarrow> (Finished (Panics p), s', [ReadMessage, OnMessage mt d]))"
  by (subst ReadPump_loop.simps) auto

lemma ReadPump_loop_Err:
  "State c = 1 \<Longrightarrow> Conn c \<noteq> None \<Longrightarrow>
   ReadPump_loop c cb ((ReadErr err, c') # rs) s =
     (case callbackOnError cb err s of
        (None, s') \<Rightarrow> (Finished (Returns ()), s', [ReadMessage, OnError err])
      | (Some p, s') \<Rightarrow> (Finished (Panics p), s', [ReadMessage, OnError err]))"
  by (subst ReadPump_loop.simps) auto

lemma ReadPump_loop_Ok_cases:
  assumes "State c = 1" "Conn c \<noteq> None"
  obtains (panic) p s' where "callbackOnMessage cb mt d s = (Some p, s')"
      and "ReadPump_loop c cb ((ReadOk mt d, c') # rs) s =
             (Finished (Panics p), s', [ReadMessage, OnMessage mt d])"
    | (continue) s' st s'' evs where "callbackOnMessage cb mt d s = (None, s')"
      and "ReadPump_loop c' cb rs s' = (st, s'', evs)"
      and "ReadPump_loop c cb ((ReadOk mt d, c') # rs) s =
             (st, s'', ReadMessage # OnMessage mt d # evs)"
proof -
  obtain po s' where cbm: "callbackOnMessage cb mt d s = (po, s')"
    by (cases "callbackOnMessage cb mt d s") auto
  obtain st s'' evs where rec: "ReadPump_loop c' cb rs s' = (st, s'', evs)"
    by (cases "ReadPump_loop c' cb rs s'") auto
  show thesis
  proof (cases po)
    case None
    with cbm rec assms show thesis
      by (intro continue [of s' st s'' evs]) (simp_all add: ReadPump_loop_Ok)
  next
    case (Some p)
    with cbm assms show thesis
      by (intro panic [of p s']) (simp_all add: ReadPump_loop_Ok)
  qed
qed

lemma ReadPump_loop_inactive_cases:
  assumes "\<not> (State c = 1 \<and> Conn c \<noteq> None)"
  shows "\<exists>r s' evs. ReadPump_loop c cb rs s = (Finished r, s', evs) \<and> r \<noteq> Blocks \<and>
           (evs = [] \<or> evs = [OnError (errors_New ErrorsWebsocketStateInvalid)])"
  using assms
  by (cases "State c = 1")
    (auto simp: ReadPump_loop_closed ReadPump_loop_nil_conn split: prod.splits option.splits)

lemma ReadPump_loop_Err_cases:
  assumes "State c = 1" "Conn c \<noteq> None"
  shows "\<exists>r s'. ReadPump_loop c cb ((ReadErr err, c') # rs) s =
                  (Finished r, s', [ReadMessage, OnError err]) \<and> r \<noteq> Blocks"
  using assms by (auto simp: ReadPump_loop_Err split: prod.splits option.splits)

lemma ReadPump_loop_events:
  "list_all is_loop_event (snd (snd (ReadPump_loop c cb rs s)))"
proof (induction rs arbitrary: c s)
  case Nil
  show ?case
  proof (cases "State c = 1 \<and> Conn c \<noteq> None")
    case True
    then show ?thesis by (simp add: ReadPump_loop_Nil)
  next
    case False
    then show ?thesis using ReadPump_loop_inactive_cases [of c cb "[]" s] by auto
  qed
next
  case (Cons x rs)
  obtain r c' where x: "x = (r, c')" by (cases x)
  show ?case
  proof (cases "State c = 1 \<and> Conn c \<noteq> None")
    case False
    then show ?thesis using ReadPump_loop_inactive_cases [of c cb "x # rs" s] by auto
  next
    case True
    then have act: "State c = 1" "Conn c \<noteq> None" by simp_all
    show ?thesis
    proof (cases r)
      case (ReadOk mt d)
      from act show ?thesis
      proof (cases rule: ReadPump_loop_Ok_cases [of c cb mt d s c' rs])
        case (panic p s')
        then show ?thesis by (simp add: x ReadOk)
      next
        case (continue s' st s'' evs)
        then show ?thesis using Cons.IH [of c' s'] by (simp add: x ReadOk)
      qed
    next
      case (ReadErr err)
      then show ?thesis
        using ReadPump_loop_Err_cases [OF act, of cb err c' rs s] by (auto simp: x)
    qed
  qed
qed

lemma loop_events_no_OnClose: "list_all is_loop_event evs \<Longrightarrow> count_list evs OnClose = 0"
  by (induction evs) auto

lemma ReadPump_loop_no_OnClose: "count_list (snd (snd (ReadPump_loop c cb rs s))) OnClose = 0"
  by (rule loop_events_no_OnClose [OF ReadPump_loop_events])

lemma ReadPump_loop_exits:
  assumes "\<not> active c \<or> list_ex ends_loop rs"
  shows "fst (ReadPump_loop c cb rs s) \<noteq> Running"
  using assms
proof (induction rs arbitrary: c s)
  case Nil
  then have "\<not> (State c = 1 \<and> Conn c \<noteq> None)" by (simp add: active_def)
  then show ?case using ReadPump_loop_inactive_cases [of c cb "[]" s] by auto
next
  case (Cons x rs)
  obtain r c' where x: "x = (r, c')" by (cases x)
  show ?case
  proof (cases "State c = 1 \<and> Conn c \<noteq> None")
    case False
    then show ?thesis using ReadPump_loop_inactive_cases [of c cb "x # rs" s] by auto
  next
    case True
    then have act: "State c = 1" "Conn c \<noteq> None" by simp_all
    show ?thesis
    proof (cases r)
      case (ReadOk mt d)
      have later: "\<not> active c' \<or> list_ex ends_loop rs"
        using Cons.prems True by (auto simp: x ReadOk active_def)
      from act show ?thesis
      proof (cases rule: ReadPump_loop_Ok_cases [of c cb mt d s c' rs])
        case (panic p s')
        then show ?thesis by (simp add: x ReadOk)
      next
        case (continue s' st s'' evs)
        then show ?thesis using Cons.IH [OF later, of s'] by (simp add: x ReadOk)
      qed
    next
      case (ReadErr err)
      then show ?thesis
        using ReadPump_loop_Err_cases [OF act, of cb err c' rs s] by (auto simp: x)
    qed
  qed
qed



lemma ends_loop_ex:
  assumes "(\<exists>err c'. (ReadErr err, c') \<in> set rs) \<or> (\<exists>r c'. (r, c') \<in> set rs \<and> \<not> active c')"
  shows "list_ex ends_loop rs"
proof -
  from assms obtain r c' where in_rs: "(r, c') \<in> set rs"
    and why: "(\<exists>err. r = ReadErr err) \<or> \<not> active c'"
    by blast
  have "ends_loop (r, c')"
    using why by (cases r) auto
  with in_rs show ?thesis
    unfolding list_ex_iff by blast
qed

text \<open>
  C3. While the loop runs, ReadPump has not called callbackOnClose. Once the loop is
  left, by break after a read error or an invalid state or by a panic of the read or
  of a callback, ReadPump calls callbackOnClose once, as its last call, after at most
  log entries; whether it then returns or panics is decided by callbackOnClose alone,
  so a panic of the loop is never passed on. The loop is left as soon as a test finds
  State not 1 or the connection nil, at the first round or after any answer, or a read
  fails.
\<close>

theorem ReadPump_onClose:
  assumes loop: "ReadPump_loop c cb rs s = (st, s1, evs1)"
  shows "(st = Running \<longrightarrow>
            ReadPump c cb rs s = (Running, s1, evs1) \<and> count_list evs1 OnClose = 0) \<and>
         (st \<noteq> Running \<longrightarrow>
            (\<exists>logged. ReadPump c cb rs s =
               (case fst (callbackOnClose cb s1) of
                  None \<Rightarrow> Finished (Returns ())
                | Some q \<Rightarrow> Finished (Panics q),
                snd (callbackOnClose cb s1), evs1 @ logged @ [OnClose]) \<and>
               list_all is_LogError logged) \<and>
            count_list (snd (snd (ReadPump c cb rs s))) OnClose = 1) \<and>
         ((State c \<noteq> 1 \<or> Conn c = None \<or> (\<exists>err c'. (ReadErr err, c') \<in> set rs) \<or>
           (\<exists>r c'. (r, c') \<in> set rs \<and> \<not> active c')) \<longrightarrow> st \<noteq> Running)"
proof (intro conjI impI)
  have none: "count_list evs1 OnClose = 0"
    using ReadPump_loop_no_OnClose [of c cb rs s] loop by simp
  {
    assume "st = Running"
    then show "ReadPump c cb rs s = (Running, s1, evs1)"
      using loop by (simp add: ReadPump_def)
    show "count_list evs1 OnClose = 0" by (rule none)
  }
  {
    assume "st \<noteq> Running"
    then obtain r where st: "st = Finished r" by (cases st) auto
    define logged where "logged =
      (case r of Panics p \<Rightarrow> recover_log ErrorsWebsocketReadMessageFail p
       | Returns u \<Rightarrow> [] | Blocks \<Rightarrow> [])"
    have lg: "list_all is_LogError logged"
    proof (cases r)
      case (Panics p)
      then show ?thesis by (cases p) (simp_all add: logged_def)
    qed (simp_all add: logged_def)
    have rp: "ReadPump c cb rs s =
        (case fst (callbackOnClose cb s1) of
           None \<Rightarrow> Finished (Returns ())
         | Some q \<Rightarrow> Finished (Panics q),
         snd (callbackOnClose cb s1), evs1 @ logged @ [OnClose])"
      using loop st by (simp add: ReadPump_def logged_def Let_def split: prod.splits option.splits)
    show "\<exists>logged. ReadPump c cb rs s =
               (case fst (callbackOnClose cb s1) of
                  None \<Rightarrow> Finished (Returns ())
                | Some q \<Rightarrow> Finished (Panics q),
                snd (callbackOnClose cb s1), evs1 @ logged @ [OnClose]) \<and>
               list_all is_LogError logged"
      using rp lg by blast
    have "count_list logged OnClose = 0"
      using lg by (induction logged) auto
    then show "count_list (snd (snd (ReadPump c cb rs s))) OnClose = 1"
      using rp none by simp
  }
  {
    assume "State c \<noteq> 1 \<or> Conn c = None \<or> (\<exists>err c'. (ReadErr err, c') \<in> set rs) \<or>
      (\<exists>r c'. (r, c') \<in> set rs \<and> \<not> active c')"
    then have "\<not> active c \<or> list_ex ends_loop rs"
      using ends_loop_ex [of rs] by (auto simp: active_def)
    then show "st \<noteq> Running"
      using ReadPump_loop_exits [of c rs cb s] loop by simp
  }
qed


theorem ReadPump_onClose_witness:
  "ReadPump client0 cb_boom
       [(ReadOk 1 ''a'', client0), (ReadOk 1 ''boom'', client0), (ReadOk 1 ''b'', client0)] 0 =
     (Finished (Returns ()), 3,
      [ReadMessage, OnMessage 1 ''a'', ReadMessage, OnMessage 1 ''boom'',
       LogError ErrorsWebsocketReadMessageFail (RuntimeError ''boom''), OnClose]) \<and>
   ReadPump client0 cb_boom [(ReadOk 1 ''a'', client0), (ReadErr (ConnError ''EOF''), client0)] 0 =
     (Finished (Returns ()), 3,
      [ReadMessage, OnMessage 1 ''a'', ReadMessage, OnError (ConnError ''EOF''), OnClose]) \<and>
   ReadPump (client0\<lparr>State := 0\<rparr>) cb_boom [] 0 =
     (Finished (Returns ()), 2, [OnError (errors_New ErrorsWebsocketStateInvalid), OnClose]) \<and>
   ReadPump client0 cb_boom
       [(ReadOk 1 ''a'', client0\<lparr>State := 0\<rparr>), (ReadOk 1 ''b'', client0\<lparr>State := 0\<rparr>)] 0 =
     (Finished (Returns ()), 3,
      [ReadMessage, OnMessage 1 ''a'', OnError (errors_New ErrorsWebsocketStateInvalid), OnClose]) \<and>
   ReadPump client0 cb_boom [(ReadOk 1 ''a'', client0)] 0 =
     (Running, 1, [ReadMessage, OnMessage 1 ''a''])"
proof -
  have l1: "ReadPump_loop client0 cb_boom
        [(ReadOk 1 ''a'', client0), (ReadOk 1 ''boom'', client0), (ReadOk 1 ''b'', client0)] 0 =
      (Finished (Panics (PanicError (RuntimeError ''boom''))), 2,
       [ReadMessage, OnMessage 1 ''a'', ReadMessage, OnMessage 1 ''boom''])"
    and l2: "ReadPump_loop client0 cb_boom
        [(ReadOk 1 ''a'', client0), (ReadErr (ConnError ''EOF''), client0)] 0 =
      (Finished (Returns ()), 2, [ReadMessage, OnMessage 1 ''a'', ReadMessage, OnError (ConnError ''EOF'')])"
    and l3: "ReadPump_loop (client0\<lparr>State := 0\<rparr>) cb_boom [] 0 =
      (Finished (Returns ()), 1, [OnError (errors_New ErrorsWebsocketStateInvalid)])"
    and l4: "ReadPump_loop client0 cb_boom
        [(ReadOk 1 ''a'', client0\<lparr>State := 0\<rparr>), (ReadOk 1 ''b'', client0\<lparr>State := 0\<rparr>)] 0 =
      (Finished (Returns ()), 2,
       [ReadMessage, OnMessage 1 ''a'', OnError (errors_New ErrorsWebsocketStateInvalid)])"
    and l5: "ReadPump_loop client0 cb_boom [(ReadOk 1 ''a'', client0)] 0 =
      (Running, 1, [ReadMessage, OnMessage 1 ''a''])"
    by (simp_all add: ReadPump_loop.simps client0_def cb_boom_def)
  show ?thesis
    using ReadPump_onClose [OF l1] ReadPump_onClose [OF l2] ReadPump_onClose [OF l3]
      ReadPump_onClose [OF l4] ReadPump_onClose [OF l5]
    by (simp add: ReadPump_def ReadPump_loop.simps client0_def cb_boom_def)
qed

subsection \<open>OnOpen\<close>

text \<open>
  C1, as the claim states it, fails: when the handshake's WriteMessage returns an error,
  OnOpen logs it and goes on; it returns the Client with true, State 1, and has sent the
  Client on the Hub's Register channel.
\<close>

theorem OnOpen_write_failure_counterexample:
  "write_err (handshake open_write_fails) = Some (ConnError ''broken pipe'') \<and>
   OnOpen cfg0 (Some (Some 7)) new_client open_write_fails =
     (Returns (Some opened, True), opened,
      [Upgrade 4 4, SetWriteDeadline 3000000100, WriteMessage 1 WebsocketHandshakeSuccess,
       LogError ErrorsWebsocketWriteMgsFail (ConnError ''broken pipe''),
       SetReadLimit 65535, RegisterSend 7])"
  by (simp add: OnOpen_def OnOpen_body_def SendMessage_def new_client_def cfg0_def Add_def Second_def
        TextMessage_def open_write_fails_def env_write_fails_def opened_def)

lemma OnOpen_after_upgrade:
  assumes up: "upgrade_res env = Inr wsConn"
    and free: "\<not> RWMutex c"
    and size: "0 \<le> sint (BufferSize cfg)" and alloc: "alloc_ok env"
    and hub: "(case WebsocketHub of Some wsHub \<Rightarrow> wsHub | None \<Rightarrow> Hub c) = Some h"
    and taken: "register_taken env"
  shows "OnOpen cfg WebsocketHub c env =
           (Returns
              (Some (c\<lparr>Hub := Some h, Conn := Some wsConn,
                       Send := Some \<lparr>cap = BufferSize cfg, buf = []\<rparr>,
                       PingPeriod := Second * Setting_PingPeriod cfg,
                       ReadDeadline := Second * Setting_ReadDeadline cfg,
                       WriteDeadline := Second * Setting_WriteDeadline cfg,
                       State := 1\<rparr>), True),
            c\<lparr>Hub := Some h, Conn := Some wsConn,
              Send := Some \<lparr>cap = BufferSize cfg, buf = []\<rparr>,
              PingPeriod := Second * Setting_PingPeriod cfg,
              ReadDeadline := Second * Setting_ReadDeadline cfg,
              WriteDeadline := Second * Setting_WriteDeadline cfg,
              State := 1\<rparr>,
            Upgrade (BufferSize cfg) (BufferSize cfg) #
            SetWriteDeadline (Add (now (handshake env)) (Second * Setting_WriteDeadline cfg)) #
            (case deadline_err (handshake env) of
               Some err \<Rightarrow>
                 [LogError ErrorsWebsocketSetWriteDeadlineFail err,
                  LogError ErrorsWebsocketWriteMgsFail err]
             | None \<Rightarrow>
                 WriteMessage TextMessage WebsocketHandshakeSuccess #
                 (case write_err (handshake env) of
                    Some err \<Rightarrow> [LogError ErrorsWebsocketWriteMgsFail err]
                  | None \<Rightarrow> [])) @
            [SetReadLimit (MaxMessageSize cfg), RegisterSend h])"
proof (cases WebsocketHub)
  case None
  with hub have "Hub c = Some h" by simp
  then have "c\<lparr>Hub := Some h\<rparr> = c" by (cases c) simp
  then show ?thesis
    using assms None
    by (cases c)
      (auto simp: OnOpen_def OnOpen_body_def SendMessage_cases Let_def split: option.splits)
next
  case (Some wsHub)
  then show ?thesis
    using assms
    by (cases c)
      (auto simp: OnOpen_def OnOpen_body_def SendMessage_cases Let_def split: option.splits)
qed

text \<open>
  C1, amended. When the upgrade succeeds and the handshake cannot be written (setting
  the deadline or writing the frame returns an error), OnOpen does not fail: it logs the
  error, sets the read limit, sends the Client on the Hub's Register channel, sets State
  to 1 and returns the Client with true. (The lock is free, the channel can be made, the
  Hub pointer is not nil and the Hub takes the value: otherwise OnOpen panics inside or
  waits.)
\<close>

theorem OnOpen_write_failure:
  assumes up: "upgrade_res env = Inr wsConn"
    and fails: "send_fails (handshake env)"
    and free: "\<not> RWMutex c"
    and size: "0 \<le> sint (BufferSize cfg)" and alloc: "alloc_ok env"
    and hub: "(case WebsocketHub of Some wsHub \<Rightarrow> wsHub | None \<Rightarrow> Hub c) = Some h"
    and taken: "register_taken env"
  shows "\<exists>c' evs err.
           OnOpen cfg WebsocketHub c env =
             (Returns (Some c', True), c',
              evs @ [LogError ErrorsWebsocketWriteMgsFail err,
                     SetReadLimit (MaxMessageSize cfg), RegisterSend h]) \<and>
           State c' = 1 \<and> Hub c' = Some h \<and> Conn c' = Some wsConn \<and>
           (deadline_err (handshake env) = Some err \<or>
            deadline_err (handshake env) = None \<and> write_err (handshake env) = Some err)"
proof (cases "deadline_err (handshake env)")
  case (Some err)
  then show ?thesis
    using OnOpen_after_upgrade [OF up free size alloc hub taken]
    by (intro exI [of _ "c\<lparr>Hub := Some h, Conn := Some wsConn,
              Send := Some \<lparr>cap = BufferSize cfg, buf = []\<rparr>,
              PingPeriod := Second * Setting_PingPeriod cfg,
              ReadDeadline := Second * Setting_ReadDeadline cfg,
              WriteDeadline := Second * Setting_WriteDeadline cfg,
              State := 1\<rparr>"]
        exI [of _ "[Upgrade (BufferSize cfg) (BufferSize cfg),
              SetWriteDeadline (Add (now (handshake env)) (Second * Setting_WriteDeadline cfg)),
              LogError ErrorsWebsocketSetWriteDeadlineFail err]"]
        exI [of _ err]) simp
next
  case None
  then obtain err where w: "write_err (handshake env) = Some err"
    using fails by (auto simp: send_fails_def)
  show ?thesis
    using OnOpen_after_upgrade [OF up free size alloc hub taken] None w
    by (intro exI [of _ "c\<lparr>Hub := Some h, Conn := Some wsConn,
              Send := Some \<lparr>cap = BufferSize cfg, buf = []\<rparr>,
              PingPeriod := Second * Setting_PingPeriod cfg,
              ReadDeadline := Second * Setting_ReadDeadline cfg,
              WriteDeadline := Second * Setting_WriteDeadline cfg,
              State := 1\<rparr>"]
        exI [of _ "[Upgrade (BufferSize cfg) (BufferSize cfg),
              SetWriteDeadline (Add (now (handshake env)) (Second * Setting_WriteDeadline cfg)),
              WriteMessage TextMessage WebsocketHandshakeSuccess]"]
        exI [of _ err]) simp
qed

theorem OnOpen_write_failure_witness:
  "OnOpen cfg0 (Some (Some 7)) new_client open_deadline_fails =
     (Returns (Some opened, True), opened,
      [Upgrade 4 4, SetWriteDeadline 3000000100,
       LogError ErrorsWebsocketSetWriteDeadlineFail (ConnError ''closed''),
       LogError ErrorsWebsocketWriteMgsFail (ConnError ''closed''),
       SetReadLimit 65535, RegisterSend 7])"
proof -
  have h: "upgrade_res open_deadline_fails = Inr 3" "send_fails (handshake open_deadline_fails)"
    "\<not> RWMutex new_client" "0 \<le> sint (BufferSize cfg0)" "alloc_ok open_deadline_fails"
    "(case Some (Some 7) of Some wsHub \<Rightarrow> wsHub | None \<Rightarrow> Hub new_client) = Some 7"
    "register_taken open_deadline_fails"
    by (simp_all add: open_deadline_fails_def env_deadline_fails_def send_fails_def
        new_client_def cfg0_def)
  show ?thesis
    using OnOpen_write_failure [OF h]
    by (simp add: OnOpen_def OnOpen_body_def SendMessage_def new_client_def cfg0_def Add_def Second_def
        TextMessage_def opened_def open_deadline_fails_def
        env_deadline_fails_def)
qed



subsection \<open>The state along a run\<close>

lemma Heartbeat_tick_State:
  "State (fst (snd (Heartbeat_tick cfg c env))) = State c \<or>
   State c = 1 \<and> State (fst (snd (Heartbeat_tick cfg c env))) = 0"
  by (auto simp: Heartbeat_tick_def SendMessage_cases Let_def split: option.splits)

lemma client_step_State:
  "State (fst (client_step cfg cb a w)) = State (fst w) \<or>
   State (fst w) = 1 \<and> State (fst (client_step cfg cb a w)) = 0"
proof -
  obtain c s rd where w: "w = (c, s, rd)"
    by (cases w) auto
  show ?thesis
  proof (cases a)
    case StartRead
    then show ?thesis using w by (cases rd) (simp_all split: prod.splits)
  next
    case (ReadAnswer r)
    then show ?thesis using w by (cases rd) (simp_all split: prod.splits)
  next
    case (Tick env)
    then show ?thesis using Heartbeat_tick_State [of cfg c env] w by simp
  next
    case (Sending mt msg env)
    then show ?thesis using w by (simp add: SendMessage_cases split: option.splits)
  next
    case (Pong t)
    then show ?thesis using w by simp
  qed
qed

lemma State_history_Cons:
  "State_history cfg cb (a # as) w =
     State (fst w) # State_history cfg cb as (client_step cfg cb a w)"
  by (simp add: State_history_def)

lemma State_history_hd:
  "\<exists>rest. State_history cfg cb as w = State (fst w) # rest"
  by (cases as) (simp_all add: State_history_def)

lemma closed_stays:
  assumes "State (fst w) \<noteq> 1"
  shows "transitions (\<lambda>a b. a \<noteq> b) (State_history cfg cb as w) = 0"
  using assms
proof (induction as arbitrary: w)
  case Nil
  then show ?case by (simp add: State_history_def)
next
  case (Cons a as)
  let ?w' = "client_step cfg cb a w"
  have same: "State (fst ?w') = State (fst w)"
    using client_step_State [of cfg cb a w] Cons.prems by auto
  then have "transitions (\<lambda>a b. a \<noteq> b) (State_history cfg cb as ?w') = 0"
    using Cons.IH [of ?w'] Cons.prems by simp
  moreover obtain rest where "State_history cfg cb as ?w' = State (fst ?w') # rest"
    using State_history_hd by blast
  ultimately show ?case
    using same by (simp add: State_history_Cons)
qed

lemma transitions_mono:
  assumes "\<And>a b. P a b \<Longrightarrow> Q a b"
  shows "transitions P xs \<le> transitions Q xs"
  using assms by (induction Q xs rule: transitions.induct) auto

text \<open>
  C8. In every run of steps of the read loop, the heartbeat loop, SendMessage and the
  pong handler, from any Client, State goes from 1 (active) to 0 (closed) at most once,
  never becomes 1 when it was not, and changes in no other way.
\<close>

theorem State_closes_once:
  "transitions (\<lambda>a b. a = 1 \<and> b = 0) (State_history cfg cb as w) \<le> 1 \<and>
   transitions (\<lambda>a b. a \<noteq> 1 \<and> b = 1) (State_history cfg cb as w) = 0 \<and>
   transitions (\<lambda>a b. a \<noteq> b \<and> \<not> (a = 1 \<and> b = 0)) (State_history cfg cb as w) = 0"
proof (induction as arbitrary: w)
  case Nil
  show ?case by (simp add: State_history_def)
next
  case (Cons a as)
  let ?w' = "client_step cfg cb a w"
  obtain rest where hd: "State_history cfg cb as ?w' = State (fst ?w') # rest"
    using State_history_hd by blast
  consider (same) "State (fst ?w') = State (fst w)"
    | (close) "State (fst w) = 1" "State (fst ?w') = 0"
    using client_step_State [of cfg cb a w] by blast
  then show ?case
  proof cases
    case same
    then show ?thesis
      using Cons.IH [of ?w'] hd by (auto simp: State_history_Cons)
  next
    case close
    then have "State (fst ?w') \<noteq> 1" by simp
    then have z: "transitions (\<lambda>a b. a \<noteq> b) (State_history cfg cb as ?w') = 0"
      by (rule closed_stays)
    have "transitions (\<lambda>a b. a = 1 \<and> b = 0) (State_history cfg cb as ?w') = 0"
      "transitions (\<lambda>a b. a \<noteq> 1 \<and> b = 1) (State_history cfg cb as ?w') = 0"
      "transitions (\<lambda>a b. a \<noteq> b \<and> \<not> (a = 1 \<and> b = 0)) (State_history cfg cb as ?w') = 0"
      using z transitions_mono [of "\<lambda>a b. a = 1 \<and> b = 0" "\<lambda>a b. a \<noteq> b" "State_history cfg cb as ?w'"]
        transitions_mono [of "\<lambda>a b. a \<noteq> 1 \<and> b = 1" "\<lambda>a b. a \<noteq> b" "State_history cfg cb as ?w'"]
        transitions_mono [of "\<lambda>a b. a \<noteq> b \<and> \<not> (a = 1 \<and> b = 0)" "\<lambda>a b. a \<noteq> b" "State_history cfg cb as ?w'"]
      by auto
    then show ?thesis
      using close hd by (simp add: State_history_Cons)
  qed
qed

theorem State_closes_once_witness:
  "State_history cfg0 cb_quiet
     [Tick env_write_fails, StartRead, ReadAnswer (ReadOk 1 ''a''), Tick env_deadline_fails,
      Sending 1 ''hello'' env_ok, Tick env_write_fails, Tick env_ok, Pong 7,
      ReadAnswer (ReadOk 1 ''b'')] (client0, 0, None) = [1, 1, 1, 1, 1, 1, 0, 0, 0, 0] \<and>
   transitions (\<lambda>a b. a = 1 \<and> b = 0) [1, 1, 1, 1, 1, 1, 0, 0, 0, 0 :: 8 word] = 1"
  using State_closes_once [of cfg0 cb_quiet
     "[Tick env_write_fails, StartRead, ReadAnswer (ReadOk 1 ''a''), Tick env_deadline_fails,
      Sending 1 ''hello'' env_ok, Tick env_write_fails, Tick env_ok, Pong 7,
      ReadAnswer (ReadOk 1 ''b'')]" "(client0, 0, None)"]
  by (simp add: State_history_def ReadPump_def ReadPump_loop.simps Heartbeat_tick_def
      SendMessage_def client0_def cfg0_def cb_quiet_def env_ok_def env_write_fails_def
      env_deadline_fails_def)

text \<open>
  A run of the steps: the read loop waits in ReadMessage, three pings fail under a
  maximum of 2 and the heartbeat sets State to 0, then a frame arrives. The frame is
  delivered; the next test of State ends the loop with the state-invalid error, and
  callbackOnClose is called.
\<close>

lemma late_frame_is_delivered:
  "last (client_run cfg0 cb_record
       [StartRead, Tick env_write_fails, Tick env_write_fails, Tick env_write_fails,
        ReadAnswer (ReadOk 1 ''late'')] (client0, [], None)) =
     (client0\<lparr>HeartbeatFailTimes := 3, State := 0\<rparr>,
      [OnMessage 1 ''late'', OnError (errors_New ErrorsWebsocketStateInvalid), OnClose],
      None)"
  by (simp add: ReadPump_def ReadPump_loop.simps Heartbeat_tick_def SendMessage_def
      client0_def cfg0_def cb_record_def env_write_fails_def)

subsection \<open>Membership in the Hub\<close>

text \<open>
  C4, as the claim states it, fails: after OnOpen, the Hub's registration and three
  failed pings under a maximum of 2, the Client is a member of clients, its registration
  is completed and its unregistration is not, and its State is 0, not 1.
\<close>

theorem closed_member_counterexample:
  "is_member 1 (sys_run cfg0 (Some (Some 7)) cb_quiet 1 closed_member_run (sys_init 0)) \<and>
   registration_standing (sys_run cfg0 (Some (Some 7)) cb_quiet 1 closed_member_run (sys_init 0)) \<and>
   State (the_client (sys_run cfg0 (Some (Some 7)) cb_quiet 1 closed_member_run (sys_init 0))) = 0 \<and>
   \<not> (is_member 1 (sys_run cfg0 (Some (Some 7)) cb_quiet 1 closed_member_run (sys_init 0)) =
        (State (the_client (sys_run cfg0 (Some (Some 7)) cb_quiet 1 closed_member_run (sys_init 0))) = 1 \<and>
         registration_standing (sys_run cfg0 (Some (Some 7)) cb_quiet 1 closed_member_run (sys_init 0))))"
  by (simp add: closed_member_run_def sys_init_def is_member_def registration_standing_def
      Register_def Unregister_def OnOpen_def OnOpen_body_def Heartbeat_tick_def SendMessage_def
      new_client_def cfg0_def open_ok_def env_ok_def env_write_fails_def)

lemma sys_step_Act_hub:
  "hub (sys_step cfg gh cb me (Act a) w) = hub w \<and>
   hub_done (sys_step cfg gh cb me (Act a) w) = hub_done w"
  by (simp split: prod.splits)

lemma sys_step_membership:
  assumes "is_member me w = registration_standing w"
  shows "is_member me (sys_step cfg gh cb me a w) = registration_standing (sys_step cfg gh cb me a w)"
proof (cases a)
  case (Open env)
  then show ?thesis
    using assms by (simp add: is_member_def registration_standing_def split: prod.splits)
next
  case (Act b)
  then show ?thesis
    using assms sys_step_Act_hub [of cfg gh cb me b w]
    by (simp add: is_member_def registration_standing_def del: sys_step.simps)
next
  case HubTakesRegister
  then show ?thesis
    using assms
    by (auto simp: is_member_def registration_standing_def Register_def split: list.splits)
next
  case SendUnregister
  then show ?thesis
    using assms by (simp add: is_member_def registration_standing_def)
next
  case HubTakesUnregister
  then show ?thesis
    using assms
    by (auto simp: is_member_def registration_standing_def Unregister_def split: list.splits)
qed

lemma sys_run_membership:
  assumes "is_member me w = registration_standing w"
  shows "is_member me (sys_run cfg gh cb me as w) = registration_standing (sys_run cfg gh cb me as w)"
  using assms
proof (induction as arbitrary: w)
  case Nil
  then show ?case by simp
next
  case (Cons a as)
  have "is_member me (sys_step cfg gh cb me a w) = registration_standing (sys_step cfg gh cb me a w)"
    using Cons.prems by (rule sys_step_membership)
  then show ?case
    using Cons.IH by simp
qed

text \<open>
  C4, amended. In every run from a new Client and an empty Hub, the Client is a member
  of clients if and only if it has completed registration and has not yet completed
  unregistration; its State is not part of the condition. No step of the Client's loops
  changes the Hub or what the Hub has completed, so a Client that the heartbeat closes
  stays a member until its unregistration is completed.
\<close>

theorem membership_is_registration:
  "is_member me (sys_run cfg gh cb me as (sys_init s)) =
     registration_standing (sys_run cfg gh cb me as (sys_init s)) \<and>
   hub (sys_step cfg gh cb me (Act a) w) = hub w \<and>
   hub_done (sys_step cfg gh cb me (Act a) w) = hub_done w"
proof -
  have "is_member me (sys_init s) = registration_standing (sys_init s)"
    by (simp add: is_member_def registration_standing_def sys_init_def)
  then have "is_member me (sys_run cfg gh cb me as (sys_init s)) =
      registration_standing (sys_run cfg gh cb me as (sys_init s))"
    by (rule sys_run_membership)
  then show ?thesis
    using sys_step_Act_hub [of cfg gh cb me a w] by simp
qed

theorem membership_is_registration_witness:
  "is_member 1 (sys_run cfg0 (Some (Some 7)) cb_quiet 1
       [Open open_ok, HubTakesRegister, Act (Tick env_write_fails), SendUnregister] (sys_init 0)) \<and>
   registration_standing (sys_run cfg0 (Some (Some 7)) cb_quiet 1
       [Open open_ok, HubTakesRegister, Act (Tick env_write_fails), SendUnregister] (sys_init 0)) \<and>
   \<not> is_member 1 (sys_run cfg0 (Some (Some 7)) cb_quiet 1
       [Open open_ok, HubTakesRegister, Act (Tick env_write_fails), SendUnregister,
        HubTakesUnregister] (sys_init 0)) \<and>
   \<not> is_member 1 (sys_run cfg0 (Some (Some 7)) cb_quiet 1 [Open open_ok] (sys_init 0))"
  using membership_is_registration [of 1 cfg0 "Some (Some 7)" cb_quiet
      "[Open open_ok, HubTakesRegister, Act (Tick env_write_fails), SendUnregister]" 0]
    membership_is_registration [of 1 cfg0 "Some (Some 7)" cb_quiet
      "[Open open_ok, HubTakesRegister, Act (Tick env_write_fails), SendUnregister,
        HubTakesUnregister]" 0]
    membership_is_registration [of 1 cfg0 "Some (Some 7)" cb_quiet "[Open open_ok]" 0]
  by (simp add: sys_init_def is_member_def registration_standing_def
      Register_def Unregister_def OnOpen_def OnOpen_body_def Heartbeat_tick_def SendMessage_def
      new_client_def cfg0_def open_ok_def env_ok_def env_write_fails_def)

end
